theory Spec2Isabelle
  imports Complex_Main "HOL-Library.Sublist"
begin

section \<open>Offline installation of COCO 2017: a model of coco2017_offline_setup.py\<close>

text \<open>
  The script checks whether the dataset is registered, and if it is not, downloads five
  archives into a cache directory and lets the dataset library install them from there,
  extracting into a temporary directory. Everything the script does is an effect: on
  the filesystem, on the console, on the network and inside the dataset library. The
  model makes these effects explicit. A \<open>world\<close> holds the filesystem and the trace of
  observable events; every operation takes a world and returns an outcome together
  with the world it leaves behind, also when it raises.
\<close>

subsection \<open>Exceptions\<close>

text \<open>
  A Python exception has a class, which is all an \<^verbatim>\<open>except\<close> clause looks at, and it
  reports something. What it reports is kept abstract, except for the one report
  "the dataset is not in the registry", which the dataset library raises from
  \<^verbatim>\<open>tfds.load(..., download = False)\<close> as an \<^verbatim>\<open>AssertionError\<close>.
\<close>

datatype exn_class =
    AssertionError
  | ZeroDivisionError
  | FileExistsError
  | FileNotFoundError
  | NotADirectoryError
  | IsADirectoryError
  | URLError
  | ContentTooShortError
  | OtherError string

datatype report = NotInRegistry | Reason string

datatype exn = Exn (exn_class: exn_class) (reports: report)

subsection \<open>The world: filesystem and trace\<close>

text \<open>
  A path is the list of its components from the root; \<^verbatim>\<open>os.path.join(d, f)\<close> appends
  a component. A directory holds the paths that extend its own.
\<close>

type_synonym path = "string list"

datatype node = File string | Dir

type_synonym filesystem = "path \<rightharpoonup> node"

datatype generate_mode = REUSE_DATASET_IF_EXISTS | REUSE_CACHE_IF_EXISTS | FORCE_REDOWNLOAD

record download_config =
  download_mode :: generate_mode
  manual_dir :: path
  extract_dir :: path

datatype event =
    Stdout string
  | UrlOpen string
  | DownloadAndPrepare download_config "path option"

record world =
  fs :: filesystem
  trace :: "event list"

type_synonym 'a outcome = "(exn + 'a) \<times> world"

definition emit :: "event \<Rightarrow> world \<Rightarrow> world" where
  "emit ev w = w\<lparr>trace := trace w @ [ev]\<rparr>"

text \<open>\<^verbatim>\<open>print(s)\<close> writes the text and a newline; \<^verbatim>\<open>print(s, end="")\<close> only the text.\<close>

definition print :: "string \<Rightarrow> world \<Rightarrow> world" where
  "print s w = emit (Stdout (s @ [CHR 0x0A])) w"

definition print_no_end :: "string \<Rightarrow> world \<Rightarrow> world" where
  "print_no_end s w = emit (Stdout s) w"

subsection \<open>Filesystem operations of the standard library\<close>

definition path_exists :: "world \<Rightarrow> path \<Rightarrow> bool" where
  "path_exists w p = (fs w p \<noteq> None)"

definition path_join :: "path \<Rightarrow> string \<Rightarrow> path" where
  "path_join d f = (if f = [] then d else d @ [f])"

definition os_error :: "exn_class \<Rightarrow> exn" where
  "os_error c = Exn c (Reason ''filesystem'')"

text \<open>
  \<^verbatim>\<open>os.mkdir\<close>: the path must not exist, and its parent must be a directory.
\<close>

definition mkdir :: "path \<Rightarrow> world \<Rightarrow> unit outcome" where
  "mkdir p w =
     (if fs w p \<noteq> None then (Inl (os_error FileExistsError), w)
      else case fs w (butlast p) of
             None \<Rightarrow> (Inl (os_error FileNotFoundError), w)
           | Some (File _) \<Rightarrow> (Inl (os_error NotADirectoryError), w)
           | Some Dir \<Rightarrow> (Inr (), w\<lparr>fs := (fs w)(p \<mapsto> Dir)\<rparr>))"

text \<open>
  \<^verbatim>\<open>os.makedirs(name)\<close> first makes the missing parent, recursively, forgiving a
  \<^verbatim>\<open>FileExistsError\<close> from there, and then the leaf with \<^verbatim>\<open>mkdir\<close>.
\<close>

function makedirs :: "path \<Rightarrow> world \<Rightarrow> unit outcome" where
  "makedirs p w =
     (if p \<noteq> [] \<and> \<not> path_exists w (butlast p) then
        (case makedirs (butlast p) w of
           (Inl e, w') \<Rightarrow>
             if exn_class e = FileExistsError then mkdir p w' else (Inl e, w')
         | (Inr _, w') \<Rightarrow> mkdir p w')
      else mkdir p w)"
  by pat_completeness auto
termination
  by (relation "measure (\<lambda>(p, w). length p)") auto

declare makedirs.simps [simp del]

text \<open>
  \<^verbatim>\<open>shutil.rmtree\<close>: the directory and everything below it are gone. The model has
  no permissions, so the removal itself does not fail.
\<close>

definition rmtree :: "path \<Rightarrow> world \<Rightarrow> world" where
  "rmtree p w = w\<lparr>fs := (\<lambda>q. if prefix p q then None else fs w q)\<rparr>"

text \<open>
  \<^verbatim>\<open>open(filename, 'wb')\<close> creates the file or truncates it; \<^verbatim>\<open>write\<close> appends.
\<close>

definition open_wb :: "path \<Rightarrow> world \<Rightarrow> unit outcome" where
  "open_wb p w =
     (case fs w p of
        Some Dir \<Rightarrow> (Inl (os_error IsADirectoryError), w)
      | Some (File _) \<Rightarrow> (Inr (), w\<lparr>fs := (fs w)(p \<mapsto> File [])\<rparr>)
      | None \<Rightarrow>
          (case fs w (butlast p) of
             None \<Rightarrow> (Inl (os_error FileNotFoundError), w)
           | Some (File _) \<Rightarrow> (Inl (os_error NotADirectoryError), w)
           | Some Dir \<Rightarrow> (Inr (), w\<lparr>fs := (fs w)(p \<mapsto> File [])\<rparr>)))"

definition write_block :: "path \<Rightarrow> string \<Rightarrow> world \<Rightarrow> world" where
  "write_block p block w =
     w\<lparr>fs := (fs w)(p \<mapsto> File ((case fs w p of Some (File c) \<Rightarrow> c | _ \<Rightarrow> []) @ block))\<rparr>"

subsection \<open>Printing integers\<close>

function str_nat :: "nat \<Rightarrow> string" where
  "str_nat n =
     (if n < 10 then [''0123456789'' ! n]
      else str_nat (n div 10) @ [''0123456789'' ! (n mod 10)])"
  by pat_completeness auto
termination
  by (relation "measure id") auto

declare str_nat.simps [simp del]

definition str_int :: "int \<Rightarrow> string" where
  "str_int i = (if i < 0 then CHR ''-'' # str_nat (nat (- i)) else str_nat (nat i))"

subsection \<open>The progress indicator\<close>

text \<open>
  Python's \<^verbatim>\<open>round\<close> of a float rounds to the nearest integer, and a tie to the even
  one. The float arithmetic of \<^verbatim>\<open>(100.0 * block_num * block_size) / total_size\<close> is
  modelled by exact rational arithmetic. The two agree as long as the product and the
  total size stay below \<open>2 ^ 52\<close> in absolute value, far beyond the sizes of the
  archives: then the product is exact, the quotient is rounded once, and a quotient that
  is not midway between two integers is not rounded onto the midpoint. A zero divisor is
  not a value of the model: the division raises, see \<open>UrlretrieveProgressIndicator_call\<close>.
\<close>

definition py_round :: "rat \<Rightarrow> int" where
  "py_round x =
     (let f = \<lfloor>x\<rfloor>; r = x - of_int f
      in if r < 1 / 2 then f
         else if 1 / 2 < r then f + 1
         else if even f then f else f + 1)"

definition curr_percentage :: "int \<Rightarrow> int \<Rightarrow> int \<Rightarrow> int" where
  "curr_percentage block_num block_size total_size =
     py_round ((100 * of_int block_num * of_int block_size) / of_int total_size)"

record UrlretrieveProgressIndicator =
  last_percentage :: "int option"

definition UrlretrieveProgressIndicator_init :: UrlretrieveProgressIndicator where
  "UrlretrieveProgressIndicator_init = \<lparr>last_percentage = None\<rparr>"

definition progress_text :: "int \<Rightarrow> string" where
  "progress_text p = [CHR 0x0D] @ ''Progress: '' @ str_int p @ ''%''"

definition UrlretrieveProgressIndicator_call ::
  "UrlretrieveProgressIndicator \<Rightarrow> int \<Rightarrow> int \<Rightarrow> int \<Rightarrow> world
     \<Rightarrow> UrlretrieveProgressIndicator outcome" where
  "UrlretrieveProgressIndicator_call self block_num block_size total_size w =
     (if total_size = 0 then
        (Inl (Exn ZeroDivisionError (Reason ''float division by zero'')), w)
      else
        let p = curr_percentage block_num block_size total_size
        in if Some p \<noteq> last_percentage self then
             (Inr (self\<lparr>last_percentage := Some p\<rparr>), print_no_end (progress_text p) w)
           else (Inr self, w))"

subsection \<open>External collaborators\<close>

text \<open>
  What the network and the dataset library do is not decided by the script. It is a
  parameter of the model:
  \<^item> \<open>http\<close> says what a request for a URL yields: a failure to open it, or a response
    with its \<^verbatim>\<open>Content-Length\<close> (if any), the blocks that \<^verbatim>\<open>read\<close> returns, and the
    error that ends the reading early (if any);
  \<^item> \<open>random_names\<close> are the candidate names \<^verbatim>\<open>tempfile\<close> draws, in order;
  \<^item> \<open>tfds_load\<close>, \<open>tfds_builder\<close> and \<open>download_and_prepare\<close> are the library's
    operations, given the registry root they were initialised with. Loading reads the
    filesystem; preparing may change it in any way, and may change it and then raise.
\<close>

datatype http_result =
    ConnectError exn
  | Response (content_length: "int option") (body_blocks: "string list")
      (read_error: "exn option")

record dataset =
  cardinality :: int

datatype builder = Builder string

record env =
  http :: "string \<Rightarrow> http_result"
  random_names :: "string list"
  tfds_load :: "path \<Rightarrow> string \<Rightarrow> string \<Rightarrow> filesystem \<Rightarrow> exn + dataset"
  tfds_builder :: "path \<Rightarrow> string \<Rightarrow> exn + builder"
  download_and_prepare ::
    "path \<Rightarrow> builder \<Rightarrow> download_config \<Rightarrow> path option \<Rightarrow> filesystem
       \<Rightarrow> (exn + unit) \<times> filesystem"

text \<open>The call into the library is an event of the trace, then the library's effect.\<close>

definition builder_download_and_prepare ::
  "env \<Rightarrow> path \<Rightarrow> builder \<Rightarrow> download_config \<Rightarrow> path option \<Rightarrow> world \<Rightarrow> unit outcome" where
  "builder_download_and_prepare E data_dir b cfg download_dir w =
     (let w1 = emit (DownloadAndPrepare cfg download_dir) w;
          (r, f) = download_and_prepare E data_dir b cfg download_dir (fs w1)
      in (r, w1\<lparr>fs := f\<rparr>))"

subsection \<open>Temporary directories\<close>

text \<open>
  \<^verbatim>\<open>tempfile.mkdtemp\<close> tries the candidate names in turn: a name that exists already
  is skipped, any other failure of \<^verbatim>\<open>mkdir\<close> is raised, and so is running out of
  candidates.
\<close>

fun mkdtemp_loop :: "string list \<Rightarrow> string \<Rightarrow> path \<Rightarrow> world \<Rightarrow> path outcome" where
  "mkdtemp_loop [] pre dir w =
     (Inl (Exn FileExistsError (Reason ''No usable temporary directory name found'')), w)"
| "mkdtemp_loop (name # names) pre dir w =
     (let file = path_join dir (pre @ name)
      in case mkdir file w of
           (Inr _, w') \<Rightarrow> (Inr file, w')
         | (Inl e, w') \<Rightarrow>
             if exn_class e = FileExistsError then mkdtemp_loop names pre dir w'
             else (Inl e, w'))"

definition mkdtemp :: "env \<Rightarrow> string \<Rightarrow> path \<Rightarrow> world \<Rightarrow> path outcome" where
  "mkdtemp E pre dir w = mkdtemp_loop (random_names E) pre dir w"

text \<open>
  \<^verbatim>\<open>with tempfile.TemporaryDirectory(prefix = ..., dir = ...) as d: body\<close> makes the
  directory, runs the body, removes the directory with all its contents however the
  body ended, and then passes on the body's outcome.
\<close>

definition with_TemporaryDirectory ::
  "env \<Rightarrow> string \<Rightarrow> path \<Rightarrow> (path \<Rightarrow> world \<Rightarrow> 'a outcome) \<Rightarrow> world \<Rightarrow> 'a outcome" where
  "with_TemporaryDirectory E pre dir body w =
     (case mkdtemp E pre dir w of
        (Inl e, w1) \<Rightarrow> (Inl e, w1)
      | (Inr d, w1) \<Rightarrow> (case body d w1 of (r, w2) \<Rightarrow> (r, rmtree d w2)))"

subsection \<open>urllib\<close>

text \<open>
  \<^verbatim>\<open>urllib.request.urlretrieve(url, filename, reporthook)\<close> opens the URL, then the
  file, calls the hook once with block number 0, and then copies block by block,
  calling the hook after each block. An empty block ends the copy. A body shorter than
  the announced length is an error, raised after the file was written.
\<close>

fun copy_blocks ::
  "path \<Rightarrow> int \<Rightarrow> int \<Rightarrow> string list \<Rightarrow> int \<Rightarrow> int \<Rightarrow> UrlretrieveProgressIndicator \<Rightarrow> world
     \<Rightarrow> int outcome" where
  "copy_blocks filename bs total_size [] blocknum nread hook w = (Inr nread, w)"
| "copy_blocks filename bs total_size (block # blocks) blocknum nread hook w =
     (if block = [] then (Inr nread, w)
      else
        let w1 = write_block filename block w
        in case UrlretrieveProgressIndicator_call hook (blocknum + 1) bs total_size w1 of
             (Inl e, w2) \<Rightarrow> (Inl e, w2)
           | (Inr hook', w2) \<Rightarrow>
               copy_blocks filename bs total_size blocks (blocknum + 1)
                 (nread + int (length block)) hook' w2)"

definition urlretrieve ::
  "env \<Rightarrow> string \<Rightarrow> path \<Rightarrow> UrlretrieveProgressIndicator \<Rightarrow> world \<Rightarrow> unit outcome" where
  "urlretrieve E url filename reporthook w =
     (let w0 = emit (UrlOpen url) w
      in case http E url of
           ConnectError e \<Rightarrow> (Inl e, w0)
         | Response len blocks err \<Rightarrow>
             (case open_wb filename w0 of
                (Inl e, w1) \<Rightarrow> (Inl e, w1)
              | (Inr _, w1) \<Rightarrow>
                  let bs = 1024 * 8;
                      total_size = (case len of None \<Rightarrow> - 1 | Some n \<Rightarrow> n)
                  in case UrlretrieveProgressIndicator_call reporthook 0 bs total_size w1 of
                       (Inl e, w2) \<Rightarrow> (Inl e, w2)
                     | (Inr hook, w2) \<Rightarrow>
                         (case copy_blocks filename bs total_size blocks 0 0 hook w2 of
                            (Inl e, w3) \<Rightarrow> (Inl e, w3)
                          | (Inr nread, w3) \<Rightarrow>
                              (case err of
                                 Some e \<Rightarrow> (Inl e, w3)
                               | None \<Rightarrow>
                                   if 0 \<le> total_size \<and> nread < total_size then
                                     (Inl (Exn ContentTooShortError
                                        (Reason ''retrieval incomplete'')), w3)
                                   else (Inr (), w3)))))"

text \<open>
  \<^verbatim>\<open>urllib.parse.urlparse(url).path\<close>: what follows the scheme and the network
  location, up to the query or the fragment, without the parameters of the last
  segment. \<^verbatim>\<open>os.path.basename\<close>: what follows the last slash.
\<close>

definition basename :: "string \<Rightarrow> string" where
  "basename p = rev (takeWhile (\<lambda>c. c \<noteq> CHR ''/'') (rev p))"

definition dirname_slash :: "string \<Rightarrow> string" where
  "dirname_slash p = rev (dropWhile (\<lambda>c. c \<noteq> CHR ''/'') (rev p))"

definition urlparse_path :: "string \<Rightarrow> string" where
  "urlparse_path url =
     (let after_scheme = drop 1 (dropWhile (\<lambda>c. c \<noteq> CHR '':'') url);
          after_netloc =
            (if take 2 after_scheme = ''//''
             then dropWhile (\<lambda>c. c \<noteq> CHR ''/'') (drop 2 after_scheme)
             else after_scheme);
          p = takeWhile (\<lambda>c. c \<noteq> CHR ''?'' \<and> c \<noteq> CHR ''#'') after_netloc
      in dirname_slash p @ takeWhile (\<lambda>c. c \<noteq> CHR '';'') (basename p))"

subsection \<open>The fetch stage: download_coco2017\<close>

definition urls :: "string list" where
  "urls =
     [''http://images.cocodataset.org/annotations/annotations_trainval2017.zip'',
      ''http://images.cocodataset.org/annotations/image_info_test2017.zip'',
      ''http://images.cocodataset.org/zips/test2017.zip'',
      ''http://images.cocodataset.org/zips/train2017.zip'',
      ''http://images.cocodataset.org/zips/val2017.zip'']"

definition file_local :: "string \<Rightarrow> string" where
  "file_local url = basename (urlparse_path url)"

definition file_local_full :: "path \<Rightarrow> string \<Rightarrow> path" where
  "file_local_full dlcache_dir url = path_join dlcache_dir (file_local url)"

definition quoted :: "string \<Rightarrow> string" where
  "quoted s = [CHR 0x27] @ s @ [CHR 0x27]"

text \<open>The body of the loop, for one URL.\<close>

definition download_url :: "env \<Rightarrow> path \<Rightarrow> string \<Rightarrow> world \<Rightarrow> unit outcome" where
  "download_url E dlcache_dir url w =
     (if path_exists w (file_local_full dlcache_dir url) then
        (Inr (), print (''Already downloaded: '' @ quoted url @ ''.'') w)
      else
        let w1 = print (''Downloading '' @ quoted url @ ''...'') w
        in case urlretrieve E url (file_local_full dlcache_dir url)
                  UrlretrieveProgressIndicator_init w1 of
             (Inl e, w2) \<Rightarrow> (Inl e, w2)
           | (Inr _, w2) \<Rightarrow> (Inr (), print ([CHR 0x0A] @ ''Done!'') w2))"

fun download_urls :: "env \<Rightarrow> path \<Rightarrow> string list \<Rightarrow> world \<Rightarrow> unit outcome" where
  "download_urls E dlcache_dir [] w = (Inr (), w)"
| "download_urls E dlcache_dir (url # rest) w =
     (case download_url E dlcache_dir url w of
        (Inl e, w') \<Rightarrow> (Inl e, w')
      | (Inr _, w') \<Rightarrow> download_urls E dlcache_dir rest w')"

definition ensure_dlcache_dir :: "path \<Rightarrow> world \<Rightarrow> unit outcome" where
  "ensure_dlcache_dir dlcache_dir w =
     (if \<not> path_exists w dlcache_dir then makedirs dlcache_dir w else (Inr (), w))"

definition download_coco2017 :: "env \<Rightarrow> path \<Rightarrow> world \<Rightarrow> unit outcome" where
  "download_coco2017 E dlcache_dir w =
     (case ensure_dlcache_dir dlcache_dir w of
        (Inl e, w1) \<Rightarrow> (Inl e, w1)
      | (Inr _, w1) \<Rightarrow> download_urls E dlcache_dir urls w1)"

subsection \<open>The install stage: install_coco2017\<close>

text \<open>
  \<open>here\<close> is \<^verbatim>\<open>os.path.dirname(os.path.abspath(__file__))\<close>, the directory of the
  script, and \<open>data_dir\<close> the registry root the library was initialised with.
\<close>

definition install_body :: "env \<Rightarrow> path \<Rightarrow> path \<Rightarrow> path \<Rightarrow> world \<Rightarrow> unit outcome" where
  "install_body E data_dir dlcache_dir temp_extract_dir w =
     (let cfg = \<lparr>download_mode = REUSE_DATASET_IF_EXISTS,
                 manual_dir = dlcache_dir,
                 extract_dir = temp_extract_dir\<rparr>
      in case tfds_builder E data_dir ''coco/2017'' of
           Inl e \<Rightarrow> (Inl e, w)
         | Inr b \<Rightarrow>
             (case builder_download_and_prepare E data_dir b cfg None w of
                (Inl e, w1) \<Rightarrow> (Inl e, w1)
              | (Inr _, w1) \<Rightarrow>
                  (Inr (),
                   print ''Deleting temporary extraction directory, please wait...''
                     (print ''Done installing dataset.'' w1))))"

definition install_coco2017 :: "env \<Rightarrow> path \<Rightarrow> path \<Rightarrow> path \<Rightarrow> world \<Rightarrow> unit outcome" where
  "install_coco2017 E here data_dir dlcache_dir w =
     (case with_TemporaryDirectory E ''extract_tmp_'' here
             (install_body E data_dir dlcache_dir) w of
        (Inl e, w1) \<Rightarrow> (Inl e, w1)
      | (Inr _, w1) \<Rightarrow> (Inr (), print ''Installation completed!'' w1))"

subsection \<open>The presence check: main\<close>

definition load_split :: "env \<Rightarrow> path \<Rightarrow> string \<Rightarrow> world \<Rightarrow> exn + dataset" where
  "load_split E data_dir split w = tfds_load E data_dir ''coco/2017'' split (fs w)"

definition report_installed :: "dataset \<Rightarrow> dataset \<Rightarrow> dataset \<Rightarrow> world \<Rightarrow> world" where
  "report_installed ds_train ds_validation ds_test w =
     print (''  #samples (test):       '' @ str_int (cardinality ds_test))
       (print (''  #samples (validation): '' @ str_int (cardinality ds_validation))
         (print (''  #samples (train):      '' @ str_int (cardinality ds_train))
           (print ''COCO 2017 dataset is already installed:'' w)))"

text \<open>
  The \<^verbatim>\<open>try\<close> block: the three loads, then the report. A load may raise; reading
  the cardinality of a loaded split and printing are taken not to.
\<close>

definition try_block :: "env \<Rightarrow> path \<Rightarrow> world \<Rightarrow> unit outcome" where
  "try_block E data_dir w =
     (case load_split E data_dir ''train'' w of
        Inl e \<Rightarrow> (Inl e, w)
      | Inr ds_train \<Rightarrow>
          (case load_split E data_dir ''validation'' w of
             Inl e \<Rightarrow> (Inl e, w)
           | Inr ds_validation \<Rightarrow>
               (case load_split E data_dir ''test'' w of
                  Inl e \<Rightarrow> (Inl e, w)
                | Inr ds_test \<Rightarrow>
                    (Inr (), report_installed ds_train ds_validation ds_test w))))"

text \<open>The handler of \<^verbatim>\<open>except AssertionError\<close>.\<close>

definition install_pipeline :: "env \<Rightarrow> path \<Rightarrow> path \<Rightarrow> world \<Rightarrow> unit outcome" where
  "install_pipeline E here data_dir w =
     (let w1 = print ''COCO 2017 dataset is not installed yet, installing it now...'' w;
          dlcache_dir = path_join here ''dlcache''
      in case download_coco2017 E dlcache_dir w1 of
           (Inl e, w2) \<Rightarrow> (Inl e, w2)
         | (Inr _, w2) \<Rightarrow> install_coco2017 E here data_dir dlcache_dir w2)"

definition main :: "env \<Rightarrow> path \<Rightarrow> path \<Rightarrow> world \<Rightarrow> unit outcome" where
  "main E here data_dir w =
     (case try_block E data_dir w of
        (Inr _, w1) \<Rightarrow> (Inr (), w1)
      | (Inl e, w1) \<Rightarrow>
          if exn_class e = AssertionError then install_pipeline E here data_dir w1
          else (Inl e, w1))"

subsection \<open>Module initialisation\<close>

text \<open>
  Before it imports the dataset library, the script assigns \<^verbatim>\<open>TFDS_DATA_DIR\<close> in the
  process environment. The library takes its registry root from that variable when it
  is imported, and its own default when the variable is not set.
\<close>

type_synonym environ = "string \<rightharpoonup> path"

definition set_data_dir :: "path \<Rightarrow> environ \<Rightarrow> environ" where
  "set_data_dir here environ = environ(''TFDS_DATA_DIR'' \<mapsto> path_join here ''tf_datasets'')"

definition import_tfds :: "environ \<Rightarrow> path" where
  "import_tfds environ =
     (case environ ''TFDS_DATA_DIR'' of
        Some d \<Rightarrow> d
      | None \<Rightarrow> [''~'', ''tensorflow_datasets''])"

definition registry_root :: "path \<Rightarrow> environ \<Rightarrow> path" where
  "registry_root here environ = import_tfds (set_data_dir here environ)"

definition script :: "env \<Rightarrow> path \<Rightarrow> environ \<Rightarrow> world \<Rightarrow> unit outcome" where
  "script E here environ w = main E here (registry_root here environ) w"

subsection \<open>Notions the properties are stated with\<close>

text \<open>What an operation added to the trace: the events of \<open>w'\<close> after those of \<open>w\<close>.\<close>

definition events_since :: "world \<Rightarrow> world \<Rightarrow> event list" where
  "events_since w w' = drop (length (trace w)) (trace w')"




subsection \<open>Example worlds and collaborators\<close>

text \<open>
  Concrete inputs, on which the properties below are evaluated. The script lives in
  \<^verbatim>\<open>/srv/coco\<close>. In \<open>cached_world\<close> all five archives are in the cache, in
  \<open>partial_world\<close> only one of them, and in \<open>bare_world\<close> not even the cache directory.
\<close>

definition here0 :: path where
  "here0 = [''srv'', ''coco'']"

definition dlcache0 :: path where
  "dlcache0 = [''srv'', ''coco'', ''dlcache'']"

definition data_dir0 :: path where
  "data_dir0 = [''srv'', ''coco'', ''tf_datasets'']"

definition staging0 :: path where
  "staging0 = [''srv'', ''coco'', ''extract_tmp_k3x9w2'']"

definition cached_fs :: filesystem where
  "cached_fs = map_of
     [([], Dir),
      ([''srv''], Dir),
      ([''srv'', ''coco''], Dir),
      ([''srv'', ''coco'', ''dlcache''], Dir),
      ([''srv'', ''coco'', ''dlcache'', ''annotations_trainval2017.zip''], File ''PK-a''),
      ([''srv'', ''coco'', ''dlcache'', ''image_info_test2017.zip''], File ''PK-i''),
      ([''srv'', ''coco'', ''dlcache'', ''test2017.zip''], File ''PK-t''),
      ([''srv'', ''coco'', ''dlcache'', ''train2017.zip''], File ''PK-r''),
      ([''srv'', ''coco'', ''dlcache'', ''val2017.zip''], File ''PK-v'')]"

definition cached_world :: world where
  "cached_world = \<lparr>fs = cached_fs, trace = []\<rparr>"

definition partial_world :: world where
  "partial_world =
     \<lparr>fs = map_of
        [([], Dir),
         ([''srv''], Dir),
         ([''srv'', ''coco''], Dir),
         ([''srv'', ''coco'', ''dlcache''], Dir),
         ([''srv'', ''coco'', ''dlcache'', ''train2017.zip''], File ''PK-r'')],
      trace = []\<rparr>"

definition bare_world :: world where
  "bare_world =
     \<lparr>fs = map_of [([], Dir), ([''srv''], Dir), ([''srv'', ''coco''], Dir)], trace = []\<rparr>"

text \<open>
  A dataset library that unpacks into the extraction directory and registers below the
  registry root, and then returns the given result. With it: a registry that does not
  have the dataset, one that fails an assertion for another reason, one that cannot be
  read, one that has the dataset, and a library that finds an archive corrupt. The
  network is down, or serves two bytes for every URL, or serves the first archive only,
  or serves resources of length zero.
\<close>

definition unpacking_library ::
  "(exn + unit) \<Rightarrow> path \<Rightarrow> builder \<Rightarrow> download_config \<Rightarrow> path option \<Rightarrow> filesystem
     \<Rightarrow> (exn + unit) \<times> filesystem" where
  "unpacking_library result data_dir b cfg download_dir f =
     (result, f(extract_dir cfg @ [''train2017''] \<mapsto> Dir,
                data_dir \<mapsto> Dir,
                data_dir @ [''coco''] \<mapsto> Dir))"

definition absent_env :: env where
  "absent_env =
     \<lparr>http = (\<lambda>url. ConnectError (Exn URLError (Reason ''network is unreachable''))),
      random_names = [''k3x9w2''],
      tfds_load = (\<lambda>data_dir name split f. Inl (Exn AssertionError NotInRegistry)),
      tfds_builder = (\<lambda>data_dir name. Inr (Builder name)),
      download_and_prepare = unpacking_library (Inr ())\<rparr>"

definition broken_registry_env :: env where
  "broken_registry_env =
     absent_env\<lparr>tfds_load := (\<lambda>data_dir name split f.
        Inl (Exn AssertionError (Reason ''unexpected shape of a feature'')))\<rparr>"

definition unreadable_registry_env :: env where
  "unreadable_registry_env =
     absent_env\<lparr>tfds_load := (\<lambda>data_dir name split f.
        Inl (Exn (OtherError ''PermissionError'') (Reason ''registry is not readable'')))\<rparr>"

definition installed_env :: env where
  "installed_env =
     absent_env\<lparr>tfds_load := (\<lambda>data_dir name split f.
        Inr \<lparr>cardinality = (if split = ''train'' then 118287
                              else if split = ''validation'' then 5000 else 40670)\<rparr>)\<rparr>"

definition corrupt_archive_env :: env where
  "corrupt_archive_env =
     absent_env\<lparr>download_and_prepare :=
        unpacking_library (Inl (Exn (OtherError ''BadZipFile'') (Reason ''corrupt archive'')))\<rparr>"

definition serving_env :: env where
  "serving_env = absent_env\<lparr>http := (\<lambda>url. Response (Some 2) [''PK''] None)\<rparr>"

definition flaky_network_env :: env where
  "flaky_network_env =
     absent_env\<lparr>http := (\<lambda>url.
        if url = ''http://images.cocodataset.org/annotations/annotations_trainval2017.zip''
        then Response (Some 2) [''PK''] None
        else ConnectError (Exn URLError (Reason ''connection reset'')))\<rparr>"

definition empty_resource_env :: env where
  "empty_resource_env = absent_env\<lparr>http := (\<lambda>url. Response (Some 0) [] None)\<rparr>"

definition annotations_url :: string where
  "annotations_url = ''http://images.cocodataset.org/annotations/annotations_trainval2017.zip''"

definition image_info_url :: string where
  "image_info_url = ''http://images.cocodataset.org/annotations/image_info_test2017.zip''"

definition train_url :: string where
  "train_url = ''http://images.cocodataset.org/zips/train2017.zip''"

definition val_url :: string where
  "val_url = ''http://images.cocodataset.org/zips/val2017.zip''"

section \<open>Basic facts\<close>

lemma fs_emit [simp]: "fs (emit ev w) = fs w"
  by (simp add: emit_def)

lemma trace_emit [simp]: "trace (emit ev w) = trace w @ [ev]"
  by (simp add: emit_def)

lemma fs_print [simp]: "fs (print s w) = fs w" "fs (print_no_end s w) = fs w"
  by (simp_all add: print_def print_no_end_def)

lemma trace_print [simp]:
  "trace (print s w) = trace w @ [Stdout (s @ [CHR 0x0A])]"
  "trace (print_no_end s w) = trace w @ [Stdout s]"
  by (simp_all add: print_def print_no_end_def)

lemma events_since_append: "trace w' = trace w @ evs \<Longrightarrow> events_since w w' = evs"
  by (simp add: events_since_def)

lemma str_nat_small: "n < 10 \<Longrightarrow> str_nat n = [''0123456789'' ! n]"
  by (subst str_nat.simps) simp

lemma str_nat_big:
  "10 \<le> n \<Longrightarrow> str_nat n = str_nat (n div 10) @ [''0123456789'' ! (n mod 10)]"
  by (subst str_nat.simps) simp

section \<open>The progress indicator\<close>

subsection \<open>Rounding\<close>


subsection \<open>One call, and a whole transfer\<close>

lemma call_nonzero:
  assumes "total_size \<noteq> 0"
  shows "UrlretrieveProgressIndicator_call self block_num block_size total_size w =
     (Inr \<lparr>last_percentage = Some (curr_percentage block_num block_size total_size)\<rparr>,
      if last_percentage self = Some (curr_percentage block_num block_size total_size) then w
      else print_no_end (progress_text (curr_percentage block_num block_size total_size)) w)"
  using assms by (cases self) (auto simp add: UrlretrieveProgressIndicator_call_def Let_def)






text \<open>
  Claim C8. The call does not guard the division: with a total size of zero it raises
  \<^verbatim>\<open>ZeroDivisionError\<close> before it prints or stores anything. This is the first call
  \<^verbatim>\<open>urlretrieve\<close> makes for a resource whose \<^verbatim>\<open>Content-Length\<close> is 0, and the
  error ends the fetch stage.
\<close>

theorem progress_indicator_zero_total_raises:
  "UrlretrieveProgressIndicator_call self block_num block_size 0 w =
     (Inl (Exn ZeroDivisionError (Reason ''float division by zero'')), w)
   \<and> fst (download_coco2017 empty_resource_env dlcache0 bare_world) =
       Inl (Exn ZeroDivisionError (Reason ''float division by zero''))"
proof -
  have first: "file_local (hd urls) = ''annotations_trainval2017.zip''"
    by (simp add: urls_def file_local_def basename_def urlparse_path_def dirname_slash_def
        Let_def)
  have "fst (download_coco2017 empty_resource_env dlcache0 bare_world) =
       Inl (Exn ZeroDivisionError (Reason ''float division by zero''))"
    using first
    by (simp add: download_coco2017_def ensure_dlcache_dir_def makedirs.simps mkdir_def
        path_exists_def path_join_def urls_def download_url_def file_local_full_def Let_def
        urlretrieve_def open_wb_def UrlretrieveProgressIndicator_call_def
        empty_resource_env_def absent_env_def bare_world_def dlcache0_def)
  then show ?thesis by (simp add: UrlretrieveProgressIndicator_call_def)
qed




section \<open>Module initialisation\<close>

text \<open>
  Claim C9, as the code has it. The registry root is always the directory
  \<^verbatim>\<open>tf_datasets\<close> beside the script: the script assigns the variable unconditionally
  before the library is initialised, so a value the operator has set is overwritten and
  the whole run is the one with that root.
\<close>

theorem registry_root_is_fixed:
  "registry_root here environ = path_join here ''tf_datasets''
   \<and> set_data_dir here environ ''TFDS_DATA_DIR'' = Some (path_join here ''tf_datasets'')
   \<and> script E here environ w = main E here (path_join here ''tf_datasets'') w"
  by (simp add: registry_root_def import_tfds_def set_data_dir_def script_def)

text \<open>
  The operator has set the variable to \<^verbatim>\<open>/data/registry\<close>, and the registry root of
  the run is \<^verbatim>\<open>/srv/coco/tf_datasets\<close> all the same.
\<close>

theorem registry_root_override_counterexample:
  "[''TFDS_DATA_DIR'' \<mapsto> [''data'', ''registry'']] ''TFDS_DATA_DIR'' = Some [''data'', ''registry'']
   \<and> registry_root [''srv'', ''coco''] [''TFDS_DATA_DIR'' \<mapsto> [''data'', ''registry'']]
       = [''srv'', ''coco'', ''tf_datasets'']
   \<and> registry_root [''srv'', ''coco''] [''TFDS_DATA_DIR'' \<mapsto> [''data'', ''registry'']]
       \<noteq> [''data'', ''registry'']"
  by (simp add: registry_root_def import_tfds_def set_data_dir_def path_join_def)

section \<open>Evaluating the model\<close>

lemma file_local_urls:
  "map file_local urls =
     [''annotations_trainval2017.zip'', ''image_info_test2017.zip'', ''test2017.zip'',
      ''train2017.zip'', ''val2017.zip'']"
  by (simp add: urls_def file_local_def basename_def urlparse_path_def dirname_slash_def Let_def)

lemmas example_defs =
  here0_def cached_fs_def cached_world_def unpacking_library_def absent_env_def
  broken_registry_env_def unreadable_registry_env_def installed_env_def corrupt_archive_env_def

lemmas run_defs =
  main_def try_block_def load_split_def install_pipeline_def report_installed_def
  download_coco2017_def ensure_dlcache_dir_def path_exists_def path_join_def
  download_url_def file_local_full_def Let_def install_coco2017_def
  with_TemporaryDirectory_def mkdtemp_def mkdir_def install_body_def
  builder_download_and_prepare_def quoted_def

lemma file_local_train: "file_local train_url = ''train2017.zip''"
  by (simp add: train_url_def file_local_def basename_def urlparse_path_def dirname_slash_def Let_def)

lemma file_local_annotations: "file_local annotations_url = ''annotations_trainval2017.zip''"
  by (simp add: annotations_url_def file_local_def basename_def urlparse_path_def
      dirname_slash_def Let_def)

lemma file_local_image_info: "file_local image_info_url = ''image_info_test2017.zip''"
  by (simp add: image_info_url_def file_local_def basename_def urlparse_path_def
      dirname_slash_def Let_def)

lemmas fetch_defs =
  download_coco2017_def ensure_dlcache_dir_def path_exists_def path_join_def
  download_url_def file_local_full_def Let_def urlretrieve_def open_wb_def write_block_def
  UrlretrieveProgressIndicator_init_def quoted_def

lemma pct_0_2: "curr_percentage 0 8192 2 = 0" by code_simp

lemma pct_1_2: "curr_percentage 1 8192 2 = 409600" by code_simp

lemma call_0_2:
  "UrlretrieveProgressIndicator_call \<lparr>last_percentage = None\<rparr> 0 8192 2 w =
     (Inr \<lparr>last_percentage = Some 0\<rparr>, print_no_end (progress_text 0) w)"
  by (simp add: call_nonzero pct_0_2)

lemma call_1_2:
  "UrlretrieveProgressIndicator_call \<lparr>last_percentage = Some 0\<rparr> 1 8192 2 w =
     (Inr \<lparr>last_percentage = Some 409600\<rparr>, print_no_end (progress_text 409600) w)"
  by (simp add: call_nonzero pct_1_2)

lemma str_118287: "str_int 118287 = ''118287''"
  by (simp add: str_int_def str_nat_small str_nat_big)

lemma str_5000: "str_int 5000 = ''5000''"
  by (simp add: str_int_def str_nat_small str_nat_big)

lemma str_40670: "str_int 40670 = ''40670''"
  by (simp add: str_int_def str_nat_small str_nat_big)

section \<open>The install stage\<close>

subsection \<open>Directories made and removed\<close>

lemma mkdir_Inr:
  "mkdir p w = (Inr u, w') \<Longrightarrow> fs w p = None \<and> w' = w\<lparr>fs := (fs w)(p \<mapsto> Dir)\<rparr>"
  by (auto simp add: mkdir_def split: if_splits option.splits node.splits)

lemma mkdir_Inl: "mkdir p w = (Inl e, w') \<Longrightarrow> w' = w"
  by (auto simp add: mkdir_def split: if_splits option.splits node.splits)


lemma mkdtemp_loop_Inr:
  "mkdtemp_loop names pre dir w = (Inr d, w') \<Longrightarrow>
     (\<exists>name \<in> set names. d = path_join dir (pre @ name))
     \<and> fs w d = None \<and> w' = w\<lparr>fs := (fs w)(d \<mapsto> Dir)\<rparr>"
proof (induction names arbitrary: w)
  case Nil
  then show ?case by simp
next
  case (Cons name names)
  show ?case
  proof (cases "mkdir (path_join dir (pre @ name)) w")
    case (Pair r w1)
    show ?thesis
    proof (cases r)
      case (Inl e1)
      with Pair have "w1 = w" by (simp add: mkdir_Inl)
      with Cons Pair Inl show ?thesis by (auto simp add: Let_def split: if_splits)
    next
      case (Inr u)
      from Cons.prems Pair Inr have "d = path_join dir (pre @ name)" and "w' = w1"
        by (simp_all add: Let_def)
      moreover have "fs w (path_join dir (pre @ name)) = None
          \<and> w1 = w\<lparr>fs := (fs w)(path_join dir (pre @ name) \<mapsto> Dir)\<rparr>"
        using Pair Inr by (intro mkdir_Inr [of _ _ u]) simp
      ultimately show ?thesis by (metis list.set_intros(1))
    qed
  qed
qed


lemma fs_rmtree: "fs (rmtree d w) q = (if prefix d q then None else fs w q)"
  by (simp add: rmtree_def)

lemma trace_rmtree [simp]: "trace (rmtree d w) = trace w"
  by (simp add: rmtree_def)

lemma fs_builder_download_and_prepare:
  "fs (snd (builder_download_and_prepare E data_dir b cfg dl w)) =
     snd (download_and_prepare E data_dir b cfg dl (fs w))"
  by (simp add: builder_download_and_prepare_def Let_def case_prod_beta)

lemma with_tmp_fs_below:
  assumes "mkdtemp E pre dir w = (Inr d, w1)" and "prefix d q"
  shows "fs (snd (with_TemporaryDirectory E pre dir body w)) q = None"
  using assms by (simp add: with_TemporaryDirectory_def case_prod_beta fs_rmtree)

lemma fs_install_coco2017:
  "fs (snd (install_coco2017 E here data_dir dlcache_dir w)) =
   fs (snd (with_TemporaryDirectory E ''extract_tmp_'' here (install_body E data_dir dlcache_dir) w))"
  by (simp add: install_coco2017_def split: prod.splits sum.splits)

text \<open>
  Claim C2. When the install stage has created its staging directory, a directory
  beside the script whose name starts with \<^verbatim>\<open>extract_tmp_\<close>, then after the stage has
  returned, with a result or with an error of the library, neither the directory nor
  anything below it exists.
\<close>

theorem staging_directory_removed:
  assumes "mkdtemp E ''extract_tmp_'' here w = (Inr d, w1)"
  shows "(\<exists>name \<in> set (random_names E). d = path_join here (''extract_tmp_'' @ name))
       \<and> \<not> path_exists w d \<and> path_exists w1 d
       \<and> (\<forall>q. prefix d q \<longrightarrow>
             fs (snd (install_coco2017 E here data_dir dlcache_dir w)) q = None)"
proof -
  from assms have loop: "mkdtemp_loop (random_names E) ''extract_tmp_'' here w = (Inr d, w1)"
    by (simp add: mkdtemp_def)
  note made = mkdtemp_loop_Inr [OF loop]
  have gone: "\<forall>q. prefix d q \<longrightarrow>
      fs (snd (install_coco2017 E here data_dir dlcache_dir w)) q = None"
    unfolding fs_install_coco2017 using with_tmp_fs_below [OF assms] by blast
  show ?thesis using made gone by (simp add: path_exists_def)
qed



lemma mkdtemp_cached:
  "mkdtemp corrupt_archive_env ''extract_tmp_'' here0 cached_world =
     (Inr staging0, cached_world\<lparr>fs := (fs cached_world)(staging0 \<mapsto> Dir)\<rparr>)"
  by (simp add: mkdtemp_def mkdir_def path_join_def example_defs staging0_def Let_def)

lemma install_corrupt_fails:
  "fst (install_coco2017 corrupt_archive_env here0 data_dir0 dlcache0 cached_world) =
     Inl (Exn (OtherError ''BadZipFile'') (Reason ''corrupt archive''))"
  by (simp add: run_defs example_defs data_dir0_def dlcache0_def)

lemma install_corrupt_registry:
  "fs (snd (install_coco2017 corrupt_archive_env here0 data_dir0 dlcache0 cached_world))
      (data_dir0 @ [''coco'']) = Some Dir"
  by (simp add: run_defs example_defs data_dir0_def dlcache0_def rmtree_def)

text \<open>
  The library unpacks into the staging directory, registers, and then finds an archive
  corrupt: the stage fails, what was registered stays, and the staging directory is gone.
\<close>

theorem staging_directory_removed_witness:
  "mkdtemp corrupt_archive_env ''extract_tmp_'' here0 cached_world =
     (Inr staging0, cached_world\<lparr>fs := (fs cached_world)(staging0 \<mapsto> Dir)\<rparr>)
   \<and> fst (install_coco2017 corrupt_archive_env here0 data_dir0 dlcache0 cached_world) =
       Inl (Exn (OtherError ''BadZipFile'') (Reason ''corrupt archive''))
   \<and> fs (snd (install_coco2017 corrupt_archive_env here0 data_dir0 dlcache0 cached_world))
       (data_dir0 @ [''coco'']) = Some Dir
   \<and> fs (snd (install_coco2017 corrupt_archive_env here0 data_dir0 dlcache0 cached_world))
       staging0 = None
   \<and> fs (snd (install_coco2017 corrupt_archive_env here0 data_dir0 dlcache0 cached_world))
       (staging0 @ [''train2017'']) = None"
proof -
  note gone = staging_directory_removed [OF mkdtemp_cached, of data_dir0 dlcache0,
      THEN conjunct2, THEN conjunct2, THEN conjunct2, rule_format]
  have "prefix staging0 staging0" and "prefix staging0 (staging0 @ [''train2017''])"
    by simp_all
  then show ?thesis
    using gone mkdtemp_cached install_corrupt_fails install_corrupt_registry
    by (intro conjI) blast+
qed

subsection \<open>The cache directory\<close>




section \<open>The presence check\<close>

text \<open>
  Claim C4. When the three splits load, the run prints the heading and the three sample
  counts and stops: nothing else is added to the trace, in particular no request for a
  URL and no call of the library's preparation, and the filesystem is as before.
\<close>

theorem already_installed_reports_and_stops:
  assumes "load_split E data_dir ''train'' w = Inr ds_train"
    and "load_split E data_dir ''validation'' w = Inr ds_validation"
    and "load_split E data_dir ''test'' w = Inr ds_test"
  shows "main E here data_dir w =
      (Inr (),
       w\<lparr>trace := trace w @
          [Stdout (''COCO 2017 dataset is already installed:'' @ [CHR 0x0A]),
           Stdout (''  #samples (train):      '' @ str_int (cardinality ds_train) @ [CHR 0x0A]),
           Stdout (''  #samples (validation): '' @ str_int (cardinality ds_validation) @ [CHR 0x0A]),
           Stdout (''  #samples (test):       '' @ str_int (cardinality ds_test) @ [CHR 0x0A])]\<rparr>)
    \<and> (\<forall>url. UrlOpen url \<notin> set (events_since w (snd (main E here data_dir w))))
    \<and> (\<forall>cfg dl. DownloadAndPrepare cfg dl \<notin> set (events_since w (snd (main E here data_dir w))))"
proof -
  have run: "main E here data_dir w =
      (Inr (),
       w\<lparr>trace := trace w @
          [Stdout (''COCO 2017 dataset is already installed:'' @ [CHR 0x0A]),
           Stdout (''  #samples (train):      '' @ str_int (cardinality ds_train) @ [CHR 0x0A]),
           Stdout (''  #samples (validation): '' @ str_int (cardinality ds_validation) @ [CHR 0x0A]),
           Stdout (''  #samples (test):       '' @ str_int (cardinality ds_test) @ [CHR 0x0A])]\<rparr>)"
    using assms
    by (simp add: main_def try_block_def report_installed_def print_def emit_def)
  show ?thesis
    unfolding run by (simp add: events_since_def)
qed

theorem already_installed_reports_and_stops_witness:
  "main installed_env here0 (path_join here0 ''tf_datasets'') cached_world =
     (Inr (),
      cached_world\<lparr>trace :=
         [Stdout (''COCO 2017 dataset is already installed:'' @ [CHR 0x0A]),
          Stdout (''  #samples (train):      118287'' @ [CHR 0x0A]),
          Stdout (''  #samples (validation): 5000'' @ [CHR 0x0A]),
          Stdout (''  #samples (test):       40670'' @ [CHR 0x0A])]\<rparr>)"
proof -
  let ?D = "path_join here0 ''tf_datasets''"
  have h1: "load_split installed_env ?D ''train'' cached_world = Inr \<lparr>cardinality = 118287\<rparr>"
    by (simp add: load_split_def installed_env_def)
  have h2: "load_split installed_env ?D ''validation'' cached_world = Inr \<lparr>cardinality = 5000\<rparr>"
    by (simp add: load_split_def installed_env_def)
  have h3: "load_split installed_env ?D ''test'' cached_world = Inr \<lparr>cardinality = 40670\<rparr>"
    by (simp add: load_split_def installed_env_def)
  show ?thesis
    using already_installed_reports_and_stops [OF h1 h2 h3, of here0]
    by (simp add: str_118287 str_5000 str_40670 cached_world_def)
qed





section \<open>The fetch stage\<close>

subsection \<open>What each step changes\<close>

lemma mkdir_effect:
  assumes "mkdir p w = (r, w')"
  shows "trace w' = trace w \<and> (\<forall>q. fs w q \<noteq> None \<longrightarrow> fs w' q = fs w q)"
  using assms by (auto simp add: mkdir_def split: if_splits option.splits node.splits)

lemma makedirs_effect:
  "makedirs p w = (r, w') \<Longrightarrow>
     trace w' = trace w \<and> (\<forall>q. fs w q \<noteq> None \<longrightarrow> fs w' q = fs w q)"
proof (induction p w arbitrary: r w' rule: makedirs.induct)
  case (1 p w)
  show ?case
  proof (cases "p \<noteq> [] \<and> \<not> path_exists w (butlast p)")
    case False
    with "1.prems" have "mkdir p w = (r, w')" by (subst (asm) makedirs.simps) auto
    then show ?thesis by (rule mkdir_effect)
  next
    case True
    obtain r1 w1 where parent: "makedirs (butlast p) w = (r1, w1)"
      by (cases "makedirs (butlast p) w") auto
    from "1.IH" [OF True parent]
    have eff1: "trace w1 = trace w" "\<forall>q. fs w q \<noteq> None \<longrightarrow> fs w1 q = fs w q"
      by simp_all
    show ?thesis
    proof (cases "mkdir p w1 = (r, w')")
      case True
      from mkdir_effect [OF True] eff1 show ?thesis by auto
    next
      case False
      with "1.prems" True parent have "w' = w1"
        by (subst (asm) makedirs.simps) (auto split: sum.splits if_splits)
      with eff1 show ?thesis by simp
    qed
  qed
qed

lemma ensure_dlcache_dir_effect:
  assumes "ensure_dlcache_dir d w = (r, w')"
  shows "trace w' = trace w \<and> (\<forall>q. fs w q \<noteq> None \<longrightarrow> fs w' q = fs w q)"
  using assms makedirs_effect [of d w r w']
  by (auto simp add: ensure_dlcache_dir_def split: if_splits)

lemma call_effect:
  assumes "UrlretrieveProgressIndicator_call h n bs t w = (r, w')"
  shows "fs w' = fs w \<and> (\<exists>ss. trace w' = trace w @ map Stdout ss)"
proof (cases "w' = w")
  case True
  then have "trace w' = trace w @ map Stdout []" by simp
  with True show ?thesis by blast
next
  case False
  with assms have "w' = print_no_end (progress_text (curr_percentage n bs t)) w"
    by (auto simp add: UrlretrieveProgressIndicator_call_def Let_def split: if_splits)
  then have "fs w' = fs w"
    and "trace w' = trace w @ map Stdout [progress_text (curr_percentage n bs t)]"
    by simp_all
  then show ?thesis by blast
qed

lemma copy_blocks_effect:
  "copy_blocks f bs t blocks k n h w = (r, w') \<Longrightarrow>
     (\<forall>q. q \<noteq> f \<longrightarrow> fs w' q = fs w q) \<and> (fs w f \<noteq> None \<longrightarrow> fs w' f \<noteq> None)
     \<and> (\<exists>ss. trace w' = trace w @ map Stdout ss)"
proof (induction blocks arbitrary: k n h w)
  case Nil
  then have "trace w' = trace w @ map Stdout []" by simp
  with Nil show ?case by auto
next
  case (Cons block blocks)
  show ?case
  proof (cases "block = []")
    case True
    with Cons.prems have "w' = w" by simp
    moreover have "trace w = trace w @ map Stdout []" by simp
    ultimately show ?thesis by blast
  next
    case False
    define w1 where "w1 = write_block f block w"
    have w1: "\<forall>q. q \<noteq> f \<longrightarrow> fs w1 q = fs w q" "fs w1 f \<noteq> None" "trace w1 = trace w"
      by (simp_all add: w1_def write_block_def)
    obtain r2 w2 where call: "UrlretrieveProgressIndicator_call h (k + 1) bs t w1 = (r2, w2)"
      by (cases "UrlretrieveProgressIndicator_call h (k + 1) bs t w1") auto
    from call_effect [OF call] obtain ss1 where
      w2: "fs w2 = fs w1" "trace w2 = trace w1 @ map Stdout ss1" by blast
    show ?thesis
    proof (cases r2)
      case (Inl e)
      with Cons.prems False call have "w' = w2" by (simp add: w1_def Let_def)
      with w1 w2 show ?thesis by auto
    next
      case (Inr h')
      with Cons.prems False call
      have "copy_blocks f bs t blocks (k + 1) (n + int (length block)) h' w2 = (r, w')"
        by (simp add: w1_def Let_def)
      from Cons.IH [OF this] obtain ss2 where
        "\<forall>q. q \<noteq> f \<longrightarrow> fs w' q = fs w2 q" "fs w2 f \<noteq> None \<longrightarrow> fs w' f \<noteq> None"
        "trace w' = trace w2 @ map Stdout ss2" by blast
      with w1 w2 have "\<forall>q. q \<noteq> f \<longrightarrow> fs w' q = fs w q" "fs w' f \<noteq> None"
        "trace w' = trace w @ map Stdout (ss1 @ ss2)" by simp_all
      then show ?thesis by blast
    qed
  qed
qed

lemma open_wb_effect:
  assumes "open_wb f w = (r, w')"
  shows "trace w' = trace w \<and> (\<forall>q. q \<noteq> f \<longrightarrow> fs w' q = fs w q)
     \<and> (fs w f \<noteq> None \<longrightarrow> fs w' f \<noteq> None) \<and> ((\<exists>u. r = Inr u) \<longrightarrow> fs w' f \<noteq> None)"
  using assms by (auto simp add: open_wb_def split: option.splits node.splits)

lemma urlretrieve_effect:
  assumes "urlretrieve E url f h w = (r, w')"
  shows "(\<forall>q. q \<noteq> f \<longrightarrow> fs w' q = fs w q) \<and> (fs w f \<noteq> None \<longrightarrow> fs w' f \<noteq> None)
     \<and> ((\<exists>u. r = Inr u) \<longrightarrow> fs w' f \<noteq> None)
     \<and> (\<exists>ss. trace w' = trace w @ UrlOpen url # map Stdout ss)"
proof -
  define w0 where "w0 = emit (UrlOpen url) w"
  have w0: "fs w0 = fs w" "trace w0 = trace w @ UrlOpen url # map Stdout []"
    by (simp_all add: w0_def)
  show ?thesis
  proof (cases "http E url")
    case (ConnectError e)
    with assms have "w' = w0" "r = Inl e" by (simp_all add: urlretrieve_def w0_def Let_def)
    with w0 show ?thesis by auto
  next
    case (Response len blocks err)
    obtain r1 w1 where op: "open_wb f w0 = (r1, w1)" by (cases "open_wb f w0") auto
    note e1 = open_wb_effect [OF op]
    show ?thesis
    proof (cases r1)
      case (Inl e)
      with assms Response op have "w' = w1" "r = Inl e"
        by (simp_all add: urlretrieve_def w0_def [symmetric] Let_def)
      with e1 w0 show ?thesis by auto
    next
      case (Inr u1)
      with e1 have ex1: "fs w1 f \<noteq> None" by blast
      define total where "total = (case len of None \<Rightarrow> - 1 | Some n \<Rightarrow> n)"
      obtain r2 w2 where call: "UrlretrieveProgressIndicator_call h 0 (1024 * 8) total w1 = (r2, w2)"
        by (cases "UrlretrieveProgressIndicator_call h 0 (1024 * 8) total w1") auto
      from call_effect [OF call] obtain ss2 where
        e2: "fs w2 = fs w1" "trace w2 = trace w1 @ map Stdout ss2" by blast
      show ?thesis
      proof (cases r2)
        case (Inl e)
        with assms Response op Inr call have "w' = w2" "r = Inl e"
          by (simp_all add: urlretrieve_def w0_def [symmetric] Let_def total_def)
        with e1 e2 w0 show ?thesis by auto
      next
        case (Inr h2)
        obtain r3 w3 where cp: "copy_blocks f (1024 * 8) total blocks 0 0 h2 w2 = (r3, w3)"
          by (cases "copy_blocks f (1024 * 8) total blocks 0 0 h2 w2") auto
        from copy_blocks_effect [OF cp] obtain ss3 where
          e3: "\<forall>q. q \<noteq> f \<longrightarrow> fs w3 q = fs w2 q" "fs w2 f \<noteq> None \<longrightarrow> fs w3 f \<noteq> None"
            "trace w3 = trace w2 @ map Stdout ss3" by blast
        have "w' = w3"
          using assms Response op \<open>r1 = Inr u1\<close> call Inr cp
          by (auto simp add: urlretrieve_def w0_def [symmetric] Let_def total_def
              split: sum.splits option.splits if_splits)
        moreover have "trace w3 = trace w @ UrlOpen url # map Stdout (ss2 @ ss3)"
          using e1 e2 e3 w0 by simp
        moreover have "\<forall>q. q \<noteq> f \<longrightarrow> fs w3 q = fs w q" "fs w3 f \<noteq> None"
          using e1 e2 e3 w0 ex1 by simp_all
        ultimately show ?thesis by blast
      qed
    qed
  qed
qed

lemma download_url_present:
  assumes "path_exists w (file_local_full d u)"
  shows "download_url E d u w = (Inr (), print (''Already downloaded: '' @ quoted u @ ''.'') w)"
  using assms by (simp add: download_url_def)

lemma download_url_unfold_absent:
  assumes "\<not> path_exists w (file_local_full d u)"
  shows "download_url E d u w =
     (case urlretrieve E u (file_local_full d u) UrlretrieveProgressIndicator_init
             (print (''Downloading '' @ quoted u @ ''...'') w) of
        (Inl e, w2) \<Rightarrow> (Inl e, w2)
      | (Inr _, w2) \<Rightarrow> (Inr (), print ([CHR 0x0A] @ ''Done!'') w2))"
  using assms by (simp add: download_url_def Let_def)

lemma download_url_absent:
  assumes "\<not> path_exists w (file_local_full d u)" and "download_url E d u w = (r, w')"
  shows "(\<forall>q. fs w q \<noteq> None \<longrightarrow> fs w' q = fs w q)
     \<and> ((\<exists>x. r = Inr x) \<longrightarrow> path_exists w' (file_local_full d u))
     \<and> (\<exists>ss. trace w' = trace w @
            Stdout (''Downloading '' @ quoted u @ ''...'' @ [CHR 0x0A]) # UrlOpen u # map Stdout ss)"
proof -
  define w1 where "w1 = print (''Downloading '' @ quoted u @ ''...'') w"
  have w1: "fs w1 = fs w"
    "trace w1 = trace w @ [Stdout (''Downloading '' @ quoted u @ ''...'' @ [CHR 0x0A])]"
    unfolding w1_def by (simp_all only: fs_print trace_print append_assoc)
  obtain r2 w2 where ur:
    "urlretrieve E u (file_local_full d u) UrlretrieveProgressIndicator_init w1 = (r2, w2)"
    by (cases "urlretrieve E u (file_local_full d u) UrlretrieveProgressIndicator_init w1") auto
  from urlretrieve_effect [OF ur] obtain ss where
    e2: "\<forall>q. q \<noteq> file_local_full d u \<longrightarrow> fs w2 q = fs w1 q"
      "(\<exists>x. r2 = Inr x) \<longrightarrow> fs w2 (file_local_full d u) \<noteq> None"
      "trace w2 = trace w1 @ UrlOpen u # map Stdout ss"
    by (elim conjE exE)
  have keep: "\<forall>q. fs w q \<noteq> None \<longrightarrow> fs w2 q = fs w q"
  proof (intro allI impI)
    fix q assume "fs w q \<noteq> None"
    with assms(1) have "q \<noteq> file_local_full d u" unfolding path_exists_def by blast
    with e2(1) have "fs w2 q = fs w1 q" by blast
    then show "fs w2 q = fs w q" unfolding w1(1) .
  qed
  have tr2: "trace w2 = trace w @
      Stdout (''Downloading '' @ quoted u @ ''...'' @ [CHR 0x0A]) # UrlOpen u # map Stdout ss"
    unfolding e2(3) w1(2) by simp
  have run: "(r, w') = (case (r2, w2) of
        (Inl e, w2) \<Rightarrow> (Inl e, w2)
      | (Inr _, w2) \<Rightarrow> (Inr (), print ([CHR 0x0A] @ ''Done!'') w2))"
    using assms(2) unfolding download_url_unfold_absent [OF assms(1)] w1_def [symmetric] ur
    by simp
  show ?thesis
  proof (cases r2)
    case (Inl e)
    with run have "w' = w2" "r = Inl e" by simp_all
    with keep tr2 show ?thesis by blast
  next
    case (Inr x)
    with run have w': "w' = print ([CHR 0x0A] @ ''Done!'') w2" and r: "r = Inr ()"
      by simp_all
    have f: "fs w' = fs w2" unfolding w' by (simp only: fs_print)
    have "trace w' = trace w2 @ map Stdout [[CHR 0x0A] @ ''Done!'' @ [CHR 0x0A]]"
      unfolding w' by (simp only: trace_print list.map append_assoc)
    then have "trace w' = trace w @
        Stdout (''Downloading '' @ quoted u @ ''...'' @ [CHR 0x0A]) # UrlOpen u #
        map Stdout (ss @ [[CHR 0x0A] @ ''Done!'' @ [CHR 0x0A]])"
      unfolding tr2 by simp
    moreover have "\<forall>q. fs w q \<noteq> None \<longrightarrow> fs w' q = fs w q" unfolding f using keep .
    moreover have "path_exists w' (file_local_full d u)"
      using e2(2) Inr unfolding path_exists_def f by blast
    ultimately show ?thesis by blast
  qed
qed

lemma download_url_keeps:
  assumes "download_url E d u w = (r, w')"
  shows "\<forall>q. fs w q \<noteq> None \<longrightarrow> fs w' q = fs w q"
proof (cases "path_exists w (file_local_full d u)")
  case True
  have "w' = print (''Already downloaded: '' @ quoted u @ ''.'') w"
    using assms unfolding download_url_present [OF True] by simp
  then have "fs w' = fs w" by (simp only: fs_print)
  then show ?thesis by simp
next
  case False
  from download_url_absent [OF False assms] show ?thesis by (elim conjE) simp
qed

lemma download_url_trace:
  assumes "download_url E d u w = (r, w')"
  shows "\<exists>evs. trace w' = trace w @ evs
     \<and> (\<forall>v. UrlOpen v \<in> set evs \<longrightarrow> v = u \<and> \<not> path_exists w (file_local_full d u))
     \<and> (path_exists w (file_local_full d u) \<longrightarrow>
          Stdout (''Already downloaded: '' @ quoted u @ ''.'' @ [CHR 0x0A]) \<in> set evs)"
proof (cases "path_exists w (file_local_full d u)")
  case True
  have "w' = print (''Already downloaded: '' @ quoted u @ ''.'') w"
    using assms unfolding download_url_present [OF True] by simp
  then have "trace w' = trace w @ [Stdout (''Already downloaded: '' @ quoted u @ ''.'' @ [CHR 0x0A])]"
    by (simp only: trace_print append_assoc)
  then show ?thesis using True by auto
next
  case False
  from download_url_absent [OF False assms] obtain ss where
    "trace w' = trace w @
       Stdout (''Downloading '' @ quoted u @ ''...'' @ [CHR 0x0A]) # UrlOpen u # map Stdout ss"
    by (elim conjE exE)
  with False show ?thesis by auto
qed

lemma download_url_success_exists:
  assumes "download_url E d u w = (Inr x, w')"
  shows "path_exists w' (file_local_full d u)"
proof (cases "path_exists w (file_local_full d u)")
  case True
  have "w' = print (''Already downloaded: '' @ quoted u @ ''.'') w"
    using assms unfolding download_url_present [OF True] by simp
  then have "fs w' = fs w" by (simp only: fs_print)
  with True show ?thesis by (simp add: path_exists_def)
next
  case False
  from download_url_absent [OF False assms] show ?thesis by (elim conjE) simp
qed

lemma download_urls_effect:
  "download_urls E d us w = (r, w') \<Longrightarrow>
     (\<forall>q. fs w q \<noteq> None \<longrightarrow> fs w' q = fs w q)
     \<and> (\<exists>evs. trace w' = trace w @ evs
          \<and> (\<forall>v. UrlOpen v \<in> set evs \<longrightarrow> v \<in> set us \<and> \<not> path_exists w (file_local_full d v))
          \<and> ((\<exists>x. r = Inr x) \<longrightarrow>
               (\<forall>v \<in> set us. path_exists w (file_local_full d v) \<longrightarrow>
                  Stdout (''Already downloaded: '' @ quoted v @ ''.'' @ [CHR 0x0A]) \<in> set evs)))"
proof (induction us arbitrary: w)
  case Nil
  then show ?case by simp
next
  case (Cons u us)
  obtain r1 w1 where one: "download_url E d u w = (r1, w1)"
    by (cases "download_url E d u w") auto
  note keep1 = download_url_keeps [OF one]
  from download_url_trace [OF one] obtain evs1 where
    t1: "trace w1 = trace w @ evs1"
      "\<forall>v. UrlOpen v \<in> set evs1 \<longrightarrow> v = u \<and> \<not> path_exists w (file_local_full d u)"
      "path_exists w (file_local_full d u) \<longrightarrow>
         Stdout (''Already downloaded: '' @ quoted u @ ''.'' @ [CHR 0x0A]) \<in> set evs1"
    by (elim conjE exE)
  show ?case
  proof (cases r1)
    case (Inl e)
    with Cons.prems one have "w' = w1" "r = Inl e" by simp_all
    with keep1 t1 show ?thesis
      by (intro conjI exI [of _ evs1]) auto
  next
    case (Inr x)
    with Cons.prems one have rest: "download_urls E d us w1 = (r, w')" by simp
    from Cons.IH [OF rest] obtain evs2 where
      keep2: "\<forall>q. fs w1 q \<noteq> None \<longrightarrow> fs w' q = fs w1 q"
      and t2: "trace w' = trace w1 @ evs2"
        "\<forall>v. UrlOpen v \<in> set evs2 \<longrightarrow> v \<in> set us \<and> \<not> path_exists w1 (file_local_full d v)"
        "(\<exists>x. r = Inr x) \<longrightarrow>
           (\<forall>v \<in> set us. path_exists w1 (file_local_full d v) \<longrightarrow>
              Stdout (''Already downloaded: '' @ quoted v @ ''.'' @ [CHR 0x0A]) \<in> set evs2)"
      by (elim conjE exE)
    have mono: "path_exists w q \<Longrightarrow> path_exists w1 q" for q
      using keep1 by (simp add: path_exists_def)
    have a: "\<forall>q. fs w q \<noteq> None \<longrightarrow> fs w' q = fs w q"
      using keep1 keep2 by simp
    have b: "trace w' = trace w @ (evs1 @ evs2)" using t1(1) t2(1) by simp
    have c: "\<forall>v. UrlOpen v \<in> set (evs1 @ evs2) \<longrightarrow>
        v \<in> set (u # us) \<and> \<not> path_exists w (file_local_full d v)"
    proof (intro allI impI)
      fix v assume "UrlOpen v \<in> set (evs1 @ evs2)"
      then consider "UrlOpen v \<in> set evs1" | "UrlOpen v \<in> set evs2" by auto
      then show "v \<in> set (u # us) \<and> \<not> path_exists w (file_local_full d v)"
      proof cases
        case 1
        with t1(2) have "v = u" and "\<not> path_exists w (file_local_full d u)" by blast+
        then show ?thesis by simp
      next
        case 2
        with t2(2) have "v \<in> set us" "\<not> path_exists w1 (file_local_full d v)" by simp_all
        with mono show ?thesis by auto
      qed
    qed
    have e: "(\<exists>x. r = Inr x) \<longrightarrow>
        (\<forall>v \<in> set (u # us). path_exists w (file_local_full d v) \<longrightarrow>
           Stdout (''Already downloaded: '' @ quoted v @ ''.'' @ [CHR 0x0A]) \<in> set (evs1 @ evs2))"
    proof (intro impI ballI)
      fix v
      assume ok: "\<exists>x. r = Inr x" and v: "v \<in> set (u # us)"
        and ex: "path_exists w (file_local_full d v)"
      show "Stdout (''Already downloaded: '' @ quoted v @ ''.'' @ [CHR 0x0A]) \<in> set (evs1 @ evs2)"
      proof (cases "v = u")
        case True
        with t1(3) ex show ?thesis by simp
      next
        case False
        with v have "v \<in> set us" by simp
        moreover from ex have "path_exists w1 (file_local_full d v)" by (rule mono)
        ultimately show ?thesis using t2(3) ok by simp
      qed
    qed
    from a b c e show ?thesis by (intro conjI exI [of _ "evs1 @ evs2"])
  qed
qed

lemma download_urls_success_exists:
  "download_urls E d us w = (Inr x, w') \<Longrightarrow> \<forall>v \<in> set us. path_exists w' (file_local_full d v)"
proof (induction us arbitrary: w)
  case Nil
  then show ?case by simp
next
  case (Cons u us)
  obtain r1 w1 where one: "download_url E d u w = (r1, w1)"
    by (cases "download_url E d u w") auto
  with Cons.prems obtain x1 where r1: "r1 = Inr x1" and rest: "download_urls E d us w1 = (Inr x, w')"
    by (cases r1) auto
  from one r1 have "path_exists w1 (file_local_full d u)"
    by (intro download_url_success_exists [of E d u w x1 w1]) simp
  moreover from download_urls_effect [OF rest]
  have "\<forall>q. fs w1 q \<noteq> None \<longrightarrow> fs w' q = fs w1 q" by (elim conjE)
  ultimately have "path_exists w' (file_local_full d u)" by (simp add: path_exists_def)
  with Cons.IH [OF rest] show ?case by simp
qed

lemma download_urls_append:
  "download_urls E d (pre @ rest) w =
     (case download_urls E d pre w of
        (Inl e, w') \<Rightarrow> (Inl e, w')
      | (Inr _, w') \<Rightarrow> download_urls E d rest w')"
  by (induction pre arbitrary: w) (auto split: prod.splits sum.splits)

lemma distinct_urls: "distinct urls"
  by (simp add: urls_def)

subsection \<open>Skipping and aborting\<close>

text \<open>
  Claim C3. An entry of the manifest whose local file exists in the cache directory when
  the fetch stage starts is skipped: the stage makes no request for its URL and leaves
  the file as it is, whatever the file holds, and a stage that succeeds has reported the
  entry as already downloaded.
\<close>

theorem fetch_skips_cached_entries:
  assumes "url \<in> set urls" and "path_exists w (file_local_full dlcache_dir url)"
  shows "UrlOpen url \<notin> set (events_since w (snd (download_coco2017 E dlcache_dir w)))
    \<and> fs (snd (download_coco2017 E dlcache_dir w)) (file_local_full dlcache_dir url)
        = fs w (file_local_full dlcache_dir url)
    \<and> (fst (download_coco2017 E dlcache_dir w) = Inr () \<longrightarrow>
         Stdout (''Already downloaded: '' @ quoted url @ ''.'' @ [CHR 0x0A])
           \<in> set (events_since w (snd (download_coco2017 E dlcache_dir w))))"
proof -
  let ?p = "file_local_full dlcache_dir url"
  obtain r0 w1 where mk: "ensure_dlcache_dir dlcache_dir w = (r0, w1)"
    by (cases "ensure_dlcache_dir dlcache_dir w") auto
  from ensure_dlcache_dir_effect [OF mk]
  have e0: "trace w1 = trace w" "\<forall>q. fs w q \<noteq> None \<longrightarrow> fs w1 q = fs w q"
    by simp_all
  from assms(2) have ex0: "fs w ?p \<noteq> None" by (simp add: path_exists_def)
  with e0(2) have same1: "fs w1 ?p = fs w ?p" by simp
  with ex0 have ex1: "path_exists w1 ?p" by (simp add: path_exists_def)
  show ?thesis
  proof (cases r0)
    case (Inl e)
    with mk have "download_coco2017 E dlcache_dir w = (Inl e, w1)"
      by (simp add: download_coco2017_def)
    then show ?thesis using e0(1) same1 by (simp add: events_since_def)
  next
    case (Inr x)
    obtain r w' where run: "download_urls E dlcache_dir urls w1 = (r, w')"
      by (cases "download_urls E dlcache_dir urls w1") auto
    with mk Inr have all: "download_coco2017 E dlcache_dir w = (r, w')"
      by (simp add: download_coco2017_def)
    from download_urls_effect [OF run] obtain evs where
      keep: "\<forall>q. fs w1 q \<noteq> None \<longrightarrow> fs w' q = fs w1 q"
      and tr: "trace w' = trace w1 @ evs"
      and req: "\<forall>v. UrlOpen v \<in> set evs \<longrightarrow>
          v \<in> set urls \<and> \<not> path_exists w1 (file_local_full dlcache_dir v)"
      and skip: "(\<exists>x. r = Inr x) \<longrightarrow>
          (\<forall>v \<in> set urls. path_exists w1 (file_local_full dlcache_dir v) \<longrightarrow>
             Stdout (''Already downloaded: '' @ quoted v @ ''.'' @ [CHR 0x0A]) \<in> set evs)"
      by (elim conjE exE)
    have ev: "events_since w w' = evs"
      using tr e0(1) by (intro events_since_append) simp
    have a: "UrlOpen url \<notin> set evs" using req ex1 by blast
    have b: "fs w' ?p = fs w ?p" using keep same1 ex0 by simp
    have c: "r = Inr () \<longrightarrow>
        Stdout (''Already downloaded: '' @ quoted url @ ''.'' @ [CHR 0x0A]) \<in> set evs"
      using skip assms(1) ex1 by blast
    show ?thesis unfolding all fst_conv snd_conv ev using a b c by (intro conjI)
  qed
qed

lemma fetch_partial_ok:
  "fst (download_coco2017 serving_env dlcache0 partial_world) = Inr ()"
  using file_local_urls
  by (simp add: fetch_defs example_defs serving_env_def partial_world_def dlcache0_def urls_def
      call_0_2 call_1_2)

text \<open>
  With one archive in the cache and a network that serves, the stage succeeds, has not
  requested that archive, and has left it as it was.
\<close>

theorem fetch_skips_cached_entries_witness:
  "train_url \<in> set urls
   \<and> path_exists partial_world (file_local_full dlcache0 train_url)
   \<and> fst (download_coco2017 serving_env dlcache0 partial_world) = Inr ()
   \<and> UrlOpen train_url
       \<notin> set (events_since partial_world (snd (download_coco2017 serving_env dlcache0 partial_world)))
   \<and> fs (snd (download_coco2017 serving_env dlcache0 partial_world))
       [''srv'', ''coco'', ''dlcache'', ''train2017.zip''] = Some (File ''PK-r'')
   \<and> Stdout (''Already downloaded: '' @ quoted train_url @ ''.'' @ [CHR 0x0A])
       \<in> set (events_since partial_world (snd (download_coco2017 serving_env dlcache0 partial_world)))"
proof -
  have h1: "train_url \<in> set urls" by (simp add: train_url_def urls_def)
  have p: "file_local_full dlcache0 train_url = [''srv'', ''coco'', ''dlcache'', ''train2017.zip'']"
    by (simp add: file_local_full_def file_local_train path_join_def dlcache0_def)
  have h2: "path_exists partial_world (file_local_full dlcache0 train_url)"
    unfolding p by (simp add: path_exists_def partial_world_def)
  have v: "fs partial_world [''srv'', ''coco'', ''dlcache'', ''train2017.zip''] = Some (File ''PK-r'')"
    by (simp add: partial_world_def)
  note skip = fetch_skips_cached_entries [OF h1 h2, of serving_env, unfolded p v]
  from h1 h2 fetch_partial_ok skip show ?thesis by (intro conjI) (simp_all add: p)
qed

text \<open>
  Hence a second run after a successful one requests nothing, whatever the network would
  answer.
\<close>

lemma fetch_rerun_requests_nothing:
  assumes "download_coco2017 E dlcache_dir w = (Inr (), w1)"
  shows "\<forall>url. UrlOpen url \<notin> set (events_since w1 (snd (download_coco2017 E' dlcache_dir w1)))"
proof -
  obtain r0 w0 where mk: "ensure_dlcache_dir dlcache_dir w = (r0, w0)"
    by (cases "ensure_dlcache_dir dlcache_dir w") auto
  with assms have first: "download_urls E dlcache_dir urls w0 = (Inr (), w1)"
    by (cases r0) (simp_all add: download_coco2017_def)
  have present: "\<forall>v \<in> set urls. path_exists w1 (file_local_full dlcache_dir v)"
    using first by (rule download_urls_success_exists)
  obtain r2 w2 where mk2: "ensure_dlcache_dir dlcache_dir w1 = (r2, w2)"
    by (cases "ensure_dlcache_dir dlcache_dir w1") auto
  from ensure_dlcache_dir_effect [OF mk2]
  have e2: "trace w2 = trace w1" "\<forall>q. fs w1 q \<noteq> None \<longrightarrow> fs w2 q = fs w1 q"
    by simp_all
  have present2: "\<forall>v \<in> set urls. path_exists w2 (file_local_full dlcache_dir v)"
    using present e2(2) by (simp add: path_exists_def)
  show ?thesis
  proof (cases r2)
    case (Inl e)
    with mk2 have "download_coco2017 E' dlcache_dir w1 = (Inl e, w2)"
      by (simp add: download_coco2017_def)
    then show ?thesis using e2(1) by (simp add: events_since_def)
  next
    case (Inr x)
    obtain r3 w3 where run: "download_urls E' dlcache_dir urls w2 = (r3, w3)"
      by (cases "download_urls E' dlcache_dir urls w2") auto
    with mk2 Inr have all: "download_coco2017 E' dlcache_dir w1 = (r3, w3)"
      by (simp add: download_coco2017_def)
    from download_urls_effect [OF run] obtain evs where
      tr: "trace w3 = trace w2 @ evs"
      and req: "\<forall>v. UrlOpen v \<in> set evs \<longrightarrow>
          v \<in> set urls \<and> \<not> path_exists w2 (file_local_full dlcache_dir v)"
      by (elim conjE exE)
    have ev: "events_since w1 w3 = evs"
      using tr e2(1) by (intro events_since_append) simp
    have "\<forall>url. UrlOpen url \<notin> set evs" using req present2 by blast
    then show ?thesis unfolding all snd_conv ev .
  qed
qed

text \<open>
  Claim C5. When the download of an entry raises, the fetch stage ends there with that
  error: the world it returns is the one the failed download left, in which the URL was
  requested once, no later entry was requested, and the files of all earlier entries
  exist with the contents they had before the failed download.
\<close>

theorem fetch_aborts_on_first_failure:
  assumes "urls = pre @ u # post"
    and "ensure_dlcache_dir dlcache_dir w = (Inr (), w1)"
    and "download_urls E dlcache_dir pre w1 = (Inr (), w2)"
    and "download_url E dlcache_dir u w2 = (Inl e, w3)"
  shows "download_coco2017 E dlcache_dir w = (Inl e, w3)
    \<and> (\<forall>v \<in> set pre. path_exists w3 (file_local_full dlcache_dir v)
          \<and> fs w3 (file_local_full dlcache_dir v) = fs w2 (file_local_full dlcache_dir v))
    \<and> (\<exists>ss. events_since w2 w3 =
          Stdout (''Downloading '' @ quoted u @ ''...'' @ [CHR 0x0A]) # UrlOpen u # map Stdout ss)
    \<and> (\<forall>v \<in> set post. UrlOpen v \<notin> set (events_since w w3))"
proof -
  have "download_urls E dlcache_dir (pre @ u # post) w1 = (Inl e, w3)"
    unfolding download_urls_append using assms(3,4) by simp
  then have run: "download_coco2017 E dlcache_dir w = (Inl e, w3)"
    using assms(1,2) by (simp add: download_coco2017_def)
  have absent: "\<not> path_exists w2 (file_local_full dlcache_dir u)"
  proof
    assume "path_exists w2 (file_local_full dlcache_dir u)"
    from download_url_present [OF this, of E] assms(4) show False by simp
  qed
  from download_url_absent [OF absent assms(4)] obtain ss where
    keep3: "\<forall>q. fs w2 q \<noteq> None \<longrightarrow> fs w3 q = fs w2 q"
    and tr3: "trace w3 = trace w2 @
        Stdout (''Downloading '' @ quoted u @ ''...'' @ [CHR 0x0A]) # UrlOpen u # map Stdout ss"
    by (elim conjE exE)
  have ex2: "\<forall>v \<in> set pre. path_exists w2 (file_local_full dlcache_dir v)"
    using assms(3) by (rule download_urls_success_exists)
  have files: "\<forall>v \<in> set pre. path_exists w3 (file_local_full dlcache_dir v)
      \<and> fs w3 (file_local_full dlcache_dir v) = fs w2 (file_local_full dlcache_dir v)"
    using ex2 keep3 by (simp add: path_exists_def)
  have once: "\<exists>ss. events_since w2 w3 =
      Stdout (''Downloading '' @ quoted u @ ''...'' @ [CHR 0x0A]) # UrlOpen u # map Stdout ss"
    using events_since_append [OF tr3] by (intro exI [of _ ss])
  from ensure_dlcache_dir_effect [OF assms(2)] have tr1: "trace w1 = trace w" by simp
  from download_urls_effect [OF assms(3)] obtain evs2 where
    tr2: "trace w2 = trace w1 @ evs2"
    and req2: "\<forall>v. UrlOpen v \<in> set evs2 \<longrightarrow>
        v \<in> set pre \<and> \<not> path_exists w1 (file_local_full dlcache_dir v)"
    by (elim conjE exE)
  have since: "events_since w w3 = evs2 @
      Stdout (''Downloading '' @ quoted u @ ''...'' @ [CHR 0x0A]) # UrlOpen u # map Stdout ss"
    by (rule events_since_append) (simp add: tr3 tr2 tr1)
  have dist: "distinct (pre @ u # post)" using distinct_urls assms(1) by simp
  have later: "\<forall>v \<in> set post. UrlOpen v \<notin> set (events_since w w3)"
  proof
    fix v assume v: "v \<in> set post"
    with dist have "v \<notin> set pre" "v \<noteq> u" by auto
    with req2 have "UrlOpen v \<notin> set evs2" by blast
    with \<open>v \<noteq> u\<close> show "UrlOpen v \<notin> set (events_since w w3)"
      unfolding since by auto
  qed
  from run files once later show ?thesis by (intro conjI)
qed

lemma ensure_bare:
  "ensure_dlcache_dir dlcache0 bare_world =
     (Inr (), bare_world\<lparr>fs := (fs bare_world)(dlcache0 \<mapsto> Dir)\<rparr>)"
  by (simp add: ensure_dlcache_dir_def makedirs.simps mkdir_def path_exists_def
      bare_world_def dlcache0_def)

lemma fetch_first_ok:
  "fst (download_urls flaky_network_env dlcache0 [annotations_url]
         (bare_world\<lparr>fs := (fs bare_world)(dlcache0 \<mapsto> Dir)\<rparr>)) = Inr ()"
  by (simp add: fetch_defs file_local_annotations flaky_network_env_def absent_env_def
      bare_world_def dlcache0_def call_0_2 call_1_2)
    (simp add: annotations_url_def)

lemma fetch_first_file:
  "fs (snd (download_urls flaky_network_env dlcache0 [annotations_url]
         (bare_world\<lparr>fs := (fs bare_world)(dlcache0 \<mapsto> Dir)\<rparr>)))
     [''srv'', ''coco'', ''dlcache'', ''annotations_trainval2017.zip''] = Some (File ''PK'')"
  by (simp add: fetch_defs file_local_annotations flaky_network_env_def absent_env_def
      bare_world_def dlcache0_def call_0_2 call_1_2)
    (simp add: annotations_url_def)

lemma fetch_second_fails:
  "fst (download_url flaky_network_env dlcache0 image_info_url
     (snd (download_urls flaky_network_env dlcache0 [annotations_url]
         (bare_world\<lparr>fs := (fs bare_world)(dlcache0 \<mapsto> Dir)\<rparr>)))) =
     Inl (Exn URLError (Reason ''connection reset''))"
  by (simp add: fetch_defs file_local_annotations file_local_image_info flaky_network_env_def
      absent_env_def bare_world_def dlcache0_def call_0_2 call_1_2)
    (simp add: annotations_url_def image_info_url_def)

text \<open>
  With no cache directory yet and a network that serves the first archive only, the stage
  ends with the error of the second download. The first archive is on disk, and the
  later ones were not requested.
\<close>

theorem fetch_aborts_on_first_failure_witness:
  "fst (download_coco2017 flaky_network_env dlcache0 bare_world) =
     Inl (Exn URLError (Reason ''connection reset''))
   \<and> fs (snd (download_coco2017 flaky_network_env dlcache0 bare_world))
       [''srv'', ''coco'', ''dlcache'', ''annotations_trainval2017.zip''] = Some (File ''PK'')
   \<and> UrlOpen train_url
       \<notin> set (events_since bare_world (snd (download_coco2017 flaky_network_env dlcache0 bare_world)))
   \<and> UrlOpen val_url
       \<notin> set (events_since bare_world (snd (download_coco2017 flaky_network_env dlcache0 bare_world)))"
proof -
  let ?E = flaky_network_env
  let ?w1 = "bare_world\<lparr>fs := (fs bare_world)(dlcache0 \<mapsto> Dir)\<rparr>"
  let ?w2 = "snd (download_urls ?E dlcache0 [annotations_url] ?w1)"
  let ?w3 = "snd (download_url ?E dlcache0 image_info_url ?w2)"
  let ?post = "[''http://images.cocodataset.org/zips/test2017.zip'', train_url, val_url]"
  have h1: "urls = [annotations_url] @ image_info_url # ?post"
    by (simp add: urls_def annotations_url_def image_info_url_def train_url_def val_url_def)
  have h3: "download_urls ?E dlcache0 [annotations_url] ?w1 = (Inr (), ?w2)"
    using fetch_first_ok by (simp add: prod_eq_iff)
  have h4: "download_url ?E dlcache0 image_info_url ?w2 =
      (Inl (Exn URLError (Reason ''connection reset'')), ?w3)"
    using fetch_second_fails by (simp add: prod_eq_iff)
  note abort = fetch_aborts_on_first_failure [OF h1 ensure_bare h3 h4]
  from abort have run: "download_coco2017 ?E dlcache0 bare_world =
      (Inl (Exn URLError (Reason ''connection reset'')), ?w3)"
    by (rule conjunct1)
  from abort have kept: "\<forall>v \<in> set [annotations_url].
      path_exists ?w3 (file_local_full dlcache0 v)
      \<and> fs ?w3 (file_local_full dlcache0 v) = fs ?w2 (file_local_full dlcache0 v)"
    by (elim conjE)
  from abort have later: "\<forall>v \<in> set ?post. UrlOpen v \<notin> set (events_since bare_world ?w3)"
    by (elim conjE)
  have p: "file_local_full dlcache0 annotations_url =
      [''srv'', ''coco'', ''dlcache'', ''annotations_trainval2017.zip'']"
    by (simp add: file_local_full_def file_local_annotations path_join_def dlcache0_def)
  have a: "fs ?w3 [''srv'', ''coco'', ''dlcache'', ''annotations_trainval2017.zip''] = Some (File ''PK'')"
    using kept fetch_first_file by (simp add: p)
  have b: "UrlOpen train_url \<notin> set (events_since bare_world ?w3)"
    and c: "UrlOpen val_url \<notin> set (events_since bare_world ?w3)"
    using later by simp_all
  show ?thesis unfolding run fst_conv snd_conv using a b c by (intro conjI) simp_all
qed

end
